theory Spec2Isabelle
  imports Main "HOL-Library.Sublist"
begin

section \<open>Strings, exceptions and the regular expressions of lib.js\<close>

text \<open>
  A JavaScript string is a sequence of UTF-16 code units. Selectors are modelled as
  \<open>string\<close>; a \<open>char\<close> stands for the code unit with the same number, so the model covers
  the strings whose code units are below 256.

  The only exception that the pruning code can raise by itself is the \<open>TypeError\<close> of a
  property access on \<open>null\<close> (\<open>String.prototype.match\<close> returns \<open>null\<close> when a regular
  expression with the \<open>g\<close> flag matches nowhere).
\<close>

datatype exn = TypeError

definition dquote :: char where
  "dquote = CHR 0x22"

definition is_space :: "char \<Rightarrow> bool" where
  \<comment> \<open>the class \<open>\s\<close>: TAB, LF, VT, FF, CR, SPACE and NBSP\<close>
  "is_space c = (c \<in> set [CHR 0x09, CHR 0x0A, CHR 0x0B, CHR 0x0C, CHR 0x0D, CHR 0x20, CHR 0xA0])"

definition is_line_terminator :: "char \<Rightarrow> bool" where
  \<comment> \<open>the characters that \<open>.\<close> does not match: LF and CR\<close>
  "is_line_terminator c = (c = CHR 0x0A \<or> c = CHR 0x0D)"

definition token_char :: "char \<Rightarrow> bool" where
  \<comment> \<open>the class \<open>[^\s"]\<close>\<close>
  "token_char c = (\<not> is_space c \<and> c \<noteq> dquote)"

definition prefix_char :: "char \<Rightarrow> bool" where
  \<comment> \<open>the class \<open>[^ :"]\<close>\<close>
  "prefix_char c = (c \<noteq> CHR '' '' \<and> c \<noteq> CHR '':'' \<and> c \<noteq> dquote)"

subsection \<open>\<open>/\/\*.*?\*\//\<close> and \<open>replace\<close> with one argument\<close>

text \<open>
  \<open>lazy_comment_end\<close> is \<open>.*?\*\/\<close> at the head of the string: it tries \<open>*/\<close> first and
  otherwise consumes one character that is not a line terminator. \<open>comment_at\<close> is the whole
  expression at the head of the string. Both return the text after the match.
\<close>

fun lazy_comment_end :: "string \<Rightarrow> string option" where
  "lazy_comment_end (c # d # cs) =
     (if c = CHR ''*'' \<and> d = CHR ''/'' then Some cs
      else if is_line_terminator c then None
      else lazy_comment_end (d # cs))"
| "lazy_comment_end _ = None"

fun comment_at :: "string \<Rightarrow> string option" where
  "comment_at (c # d # cs) =
     (if c = CHR ''/'' \<and> d = CHR ''*'' then lazy_comment_end cs else None)"
| "comment_at _ = None"

text \<open>
  \<open>selector.replace(/\/\*.*?\*\//)\<close>: the expression has no \<open>g\<close> flag, so only the leftmost
  match is replaced; the call has no second argument, so the replacement value is
  \<open>undefined\<close>, which \<open>replace\<close> converts to the string \<open>undefined\<close>.
\<close>

fun replace_comment :: "string \<Rightarrow> string" where
  "replace_comment [] = []"
| "replace_comment (c # cs) =
     (case comment_at (c # cs) of
        Some rest \<Rightarrow> ''undefined'' @ rest
      | None \<Rightarrow> c # replace_comment cs)"

subsection \<open>\<open>/(?:[^\s"]+|"[^"]*")+/g\<close> and \<open>/(?:[^ :"]+|"[^"]*")+/g\<close>\<close>

text \<open>
  \<open>closing_quote\<close> is \<open>[^"]*"\<close> after an opening quote: the quoted text and the text after
  the closing quote. \<open>units p\<close> is \<open>(?:[p]+|"[^"]*")+\<close> at the head of the string, where
  \<open>p\<close> is the character class of the first alternative: the greedy match and the text
  after it. The match is empty when the expression does not match there.
\<close>

fun closing_quote :: "string \<Rightarrow> (string \<times> string) option" where
  "closing_quote [] = None"
| "closing_quote (c # cs) =
     (if c = dquote then Some ([], cs)
      else (case closing_quote cs of
              None \<Rightarrow> None
            | Some (q, r) \<Rightarrow> Some (c # q, r)))"

lemma closing_quote_length:
  "closing_quote cs = Some (q, r) \<Longrightarrow> length r < length cs"
  by (induction cs arbitrary: q r) (auto split: if_splits option.splits)

function units :: "(char \<Rightarrow> bool) \<Rightarrow> string \<Rightarrow> string \<times> string" where
  "units p [] = ([], [])"
| "units p (c # cs) =
     (if c = dquote then
        (case closing_quote cs of
           None \<Rightarrow> ([], c # cs)
         | Some (q, r) \<Rightarrow> (case units p r of (m, r') \<Rightarrow> (c # q @ dquote # m, r')))
      else if p c then (case units p cs of (m, r') \<Rightarrow> (c # m, r'))
      else ([], c # cs))"
  by pat_completeness auto
termination
  by (relation "measure (\<lambda>(p, s). length s)") (auto dest: closing_quote_length)

lemma closing_quote_split:
  "closing_quote cs = Some (q, r) \<Longrightarrow> cs = q @ dquote # r"
  by (induction cs arbitrary: q r) (auto split: if_splits option.splits)

lemma units_split: "units p s = (m, r) \<Longrightarrow> s = m @ r"
proof (induction p s arbitrary: m r rule: units.induct)
  case (1 p)
  then show ?case by simp
next
  case (2 p c cs)
  show ?case
  proof (cases "c = dquote")
    case True
    show ?thesis
    proof (cases "closing_quote cs")
      case None
      with True "2.prems" show ?thesis by simp
    next
      case (Some qr)
      obtain q r0 where qr: "qr = (q, r0)" by (cases qr)
      obtain m0 r1 where u: "units p r0 = (m0, r1)" by (cases "units p r0")
      from "2.IH"(1) [OF True Some [unfolded qr] refl u] have "r0 = m0 @ r1" .
      moreover from Some qr have "cs = q @ dquote # r0" by (simp add: closing_quote_split)
      ultimately show ?thesis using True Some qr u "2.prems" by auto
    qed
  next
    case False
    show ?thesis
    proof (cases "p c")
      case True
      obtain m0 r1 where u: "units p cs = (m0, r1)" by (cases "units p cs")
      from "2.IH"(2) [OF False True u] have "cs = m0 @ r1" .
      with False True u "2.prems" show ?thesis by auto
    next
      case F: False
      with False "2.prems" show ?thesis by simp
    qed
  qed
qed

text \<open>
  \<open>match_all p s\<close> is \<open>s.match(re)\<close> for a global expression, before the \<open>null\<close> test: the
  successive leftmost matches. A match is never empty, so the search resumes where the
  match ended; where the expression does not match, it resumes one character later.
\<close>

function match_all :: "(char \<Rightarrow> bool) \<Rightarrow> string \<Rightarrow> string list" where
  "match_all p [] = []"
| "match_all p (c # cs) =
     (case units p (c # cs) of
        (m, r) \<Rightarrow> if m = [] then match_all p cs else m # match_all p r)"
  by pat_completeness auto
termination
proof (relation "measure (\<lambda>(p, s). length s)", goal_cases)
  case 1
  show ?case by simp
next
  case 2
  then show ?case by simp
next
  case (3 p c cs m r)
  then have "units p (c # cs) = (m, r)" by simp
  then have "c # cs = m @ r" by (rule units_split)
  then have "length (c # cs) = length m + length r" by (metis length_append)
  with 3 show ?case by (cases m) auto
qed

definition match_g :: "(char \<Rightarrow> bool) \<Rightarrow> string \<Rightarrow> string list option" where
  \<comment> \<open>\<open>String.prototype.match\<close> with a global expression: \<open>null\<close> when nothing matches\<close>
  "match_g p s = (case match_all p s of [] \<Rightarrow> None | m # ms \<Rightarrow> Some (m # ms))"

subsection \<open>The fallback selector \<open>temp\<close>\<close>

fun map_exn :: "('a \<Rightarrow> exn + 'b) \<Rightarrow> 'a list \<Rightarrow> exn + 'b list" where
  \<comment> \<open>\<open>Array.prototype.map\<close> with a callback that may throw\<close>
  "map_exn f [] = Inr []"
| "map_exn f (x # xs) =
     (case f x of
        Inl e \<Rightarrow> Inl e
      | Inr y \<Rightarrow> (case map_exn f xs of Inl e \<Rightarrow> Inl e | Inr ys \<Rightarrow> Inr (y # ys)))"

fun join :: "string \<Rightarrow> string list \<Rightarrow> string" where
  "join sep [] = []"
| "join sep [x] = x"
| "join sep (x # y # ys) = x @ sep @ join sep (y # ys)"

definition first_match :: "string \<Rightarrow> exn + string" where
  \<comment> \<open>\<open>str.match(/(?:[^ :"]+|"[^"]*")+/g)[0]\<close>; indexing \<open>null\<close> throws\<close>
  "first_match str =
     (case match_g prefix_char str of None \<Rightarrow> Inl TypeError | Some ms \<Rightarrow> Inr (hd ms))"

definition normalize_selector :: "string \<Rightarrow> exn + string" where
  \<comment> \<open>the expression assigned to \<open>temp\<close>; calling \<open>map\<close> on \<open>null\<close> throws\<close>
  "normalize_selector selector =
     (case match_g token_char (replace_comment selector) of
        None \<Rightarrow> Inl TypeError
      | Some tokens \<Rightarrow>
          (case map_exn first_match tokens of
             Inl e \<Rightarrow> Inl e
           | Inr strs \<Rightarrow> Inr (join '' '' strs)))"

section \<open>RegExp objects\<close>

text \<open>
  A \<open>RegExp\<close> of the ignore list is an object with state: \<open>test\<close> reads its \<open>lastIndex\<close>
  and, with the flag \<open>g\<close> or \<open>y\<close>, writes it. The compiled pattern is the field
  \<open>match_at\<close>: \<open>match_at r s i\<close> is the end of the match of the pattern in \<open>s\<close> at the index
  \<open>i\<close>, or \<open>None\<close> when the pattern does not match there.

  \<open>test\<close> follows \<open>RegExpBuiltinExec\<close> of ECMAScript (from the 2017 edition on; the
  earlier editions also store 0 in \<open>lastIndex\<close> when an expression without a flag does
  not match, which changes no result). The first component is the value that \<open>test\<close>
  returns, the second the object after the call.
\<close>

record regexp =
  match_at :: "string \<Rightarrow> nat \<Rightarrow> nat option"
  global :: bool
  sticky :: bool
  lastIndex :: nat

function search :: "(string \<Rightarrow> nat \<Rightarrow> nat option) \<Rightarrow> string \<Rightarrow> nat \<Rightarrow> nat option" where
  \<comment> \<open>the loop of \<open>RegExpBuiltinExec\<close> without the flag \<open>y\<close>: the first index from \<open>i\<close> on
      at which the pattern matches\<close>
  "search m s i =
     (if length s < i then None
      else (case m s i of Some e \<Rightarrow> Some e | None \<Rightarrow> search m s (Suc i)))"
  by pat_completeness auto
termination
  by (relation "measure (\<lambda>(m, s, i). Suc (length s) - i)") auto

definition test :: "regexp \<Rightarrow> string \<Rightarrow> bool \<times> regexp" where
  "test r s =
     (if sticky r then
        (if length s < lastIndex r then (False, r\<lparr>lastIndex := 0\<rparr>)
         else (case match_at r s (lastIndex r) of
                 None \<Rightarrow> (False, r\<lparr>lastIndex := 0\<rparr>)
               | Some e \<Rightarrow> (True, r\<lparr>lastIndex := e\<rparr>)))
      else if global r then
        (case search (match_at r) s (lastIndex r) of
           None \<Rightarrow> (False, r\<lparr>lastIndex := 0\<rparr>)
         | Some e \<Rightarrow> (True, r\<lparr>lastIndex := e\<rparr>))
      else
        (case search (match_at r) s 0 of
           None \<Rightarrow> (False, r)
         | Some e \<Rightarrow> (True, r)))"

section \<open>filterUnusedSelectors\<close>

text \<open>
  A DOM snapshot is the function that cheerio returns for a page: applied to a selector it
  returns a collection, of which the code reads the length only, or it throws.
  \<open>None\<close> is a throw, \<open>Some n\<close> a collection of length \<open>n\<close>.

  An entry of the ignore list is a string or a reference to a \<open>RegExp\<close> object. The
  objects are held by address (\<open>regexps\<close>), so that an object that occurs twice in the
  list has one \<open>lastIndex\<close>. The functions that reach \<open>test\<close> take the objects as they
  are before the call and return, beside their result, the objects as the tests have left
  them.
\<close>

type_synonym dom = "string \<Rightarrow> nat option"

type_synonym addr = nat

type_synonym regexps = "addr \<Rightarrow> regexp"

datatype ignore_entry = Literal string | Pattern addr

fun indexOf_found :: "ignore_entry list \<Rightarrow> string \<Rightarrow> bool" where
  \<comment> \<open>\<open>ignore.indexOf(selector) !== -1\<close>: strict equality, so only a string entry is found\<close>
  "indexOf_found [] selector = False"
| "indexOf_found (Literal l # ignore) selector =
     (if l = selector then True else indexOf_found ignore selector)"
| "indexOf_found (Pattern a # ignore) selector = indexOf_found ignore selector"

fun regexp_found :: "ignore_entry list \<Rightarrow> string \<Rightarrow> regexps \<Rightarrow> bool \<times> regexps" where
  \<comment> \<open>the loop over \<open>j\<close>: \<open>_.isRegExp(ignore[j]) && ignore[j].test(selector)\<close>; the entries
      after the first successful test are not tested\<close>
  "regexp_found [] selector rs = (False, rs)"
| "regexp_found (Pattern a # ignore) selector rs =
     (case test (rs a) selector of
        (True, r') \<Rightarrow> (True, rs(a := r'))
      | (False, r') \<Rightarrow> regexp_found ignore selector (rs(a := r')))"
| "regexp_found (Literal l # ignore) selector rs = regexp_found ignore selector rs"

fun match_doms :: "dom list \<Rightarrow> string \<Rightarrow> exn + bool" where
  \<comment> \<open>the loop over \<open>i\<close>, with its two \<open>try\<close> blocks\<close>
  "match_doms [] selector = Inr False"
| "match_doms (d # doms) selector =
     (case d selector of
        Some n \<Rightarrow> if n \<noteq> 0 then Inr True else match_doms doms selector
      | None \<Rightarrow>
          (case normalize_selector selector of
             Inl e \<Rightarrow> Inl e
           | Inr temp \<Rightarrow>
               (case d temp of
                  None \<Rightarrow> Inr True
                | Some n \<Rightarrow> if n \<noteq> 0 then Inr True else match_doms doms selector)))"

definition selector_filter ::
    "dom list \<Rightarrow> ignore_entry list \<Rightarrow> regexps \<Rightarrow> string \<Rightarrow> (exn + bool) \<times> regexps" where
  \<comment> \<open>the callback of \<open>selectors.filter\<close>\<close>
  "selector_filter doms ignore rs selector =
     (if (case selector of [] \<Rightarrow> False | c # cs \<Rightarrow> c = CHR ''@'') then (Inr True, rs)
      else if indexOf_found ignore selector then (Inr True, rs)
      else (case regexp_found ignore selector rs of
              (True, rs') \<Rightarrow> (Inr True, rs')
            | (False, rs') \<Rightarrow> (match_doms doms selector, rs')))"

fun filter_exn :: "('a \<Rightarrow> exn + bool) \<Rightarrow> 'a list \<Rightarrow> exn + 'a list" where
  \<comment> \<open>\<open>Array.prototype.filter\<close> with a callback that may throw\<close>
  "filter_exn f [] = Inr []"
| "filter_exn f (x # xs) =
     (case f x of
        Inl e \<Rightarrow> Inl e
      | Inr b \<Rightarrow>
          (case filter_exn f xs of
             Inl e \<Rightarrow> Inl e
           | Inr ys \<Rightarrow> Inr (if b then x # ys else ys)))"

fun filter_st :: "('s \<Rightarrow> 'a \<Rightarrow> (exn + bool) \<times> 's) \<Rightarrow> 'a list \<Rightarrow> 's \<Rightarrow> (exn + 'a list) \<times> 's" where
  \<comment> \<open>\<open>Array.prototype.filter\<close> with a callback that may throw and that changes a state\<close>
  "filter_st f [] s = (Inr [], s)"
| "filter_st f (x # xs) s =
     (case f s x of
        (Inl e, s') \<Rightarrow> (Inl e, s')
      | (Inr b, s') \<Rightarrow>
          (case filter_st f xs s' of
             (Inl e, s'') \<Rightarrow> (Inl e, s'')
           | (Inr ys, s'') \<Rightarrow> (Inr (if b then x # ys else ys), s'')))"

definition filterUnusedSelectors ::
    "dom list \<Rightarrow> string list \<Rightarrow> ignore_entry list \<Rightarrow> regexps \<Rightarrow> (exn + string list) \<times> regexps" where
  "filterUnusedSelectors doms selectors ignore rs =
     filter_st (selector_filter doms ignore) selectors rs"

section \<open>filterUnusedRules\<close>

text \<open>
  A node of the stylesheet has the type \<open>rule\<close> (selectors and declarations), the type
  \<open>media\<close> (the media query and the nested rules), or any other type, which the code never
  looks into: \<open>Other t c\<close> is such a node, of type \<open>t\<close> and content \<open>c\<close>. The argument
  \<open>stylesheet\<close> is modelled by its field \<open>rules\<close>, the result by its field
  \<open>stylesheet.rules\<close>.

  This section gives the values that the code computes, together with the \<open>RegExp\<close>
  objects after the call. The assignments to the fields of the caller's nodes are the
  subject of the next section.
\<close>

type_synonym css_declaration = "string \<times> string"

datatype rule =
    Rule "string list" "css_declaration list"
  | Media string "rule list"
  | Other string string

fun rule_kept :: "rule \<Rightarrow> bool" where
  \<comment> \<open>the callback of \<open>rules.filter\<close>\<close>
  "rule_kept (Rule selectors decls) = (if length selectors = 0 then False else True)"
| "rule_kept (Media media rules) = (if length rules = 0 then False else True)"
| "rule_kept (Other t c) = True"

fun forEach_rule ::
    "dom list \<Rightarrow> ignore_entry list \<Rightarrow> regexps \<Rightarrow> rule \<Rightarrow> (exn + rule) \<times> regexps"
  and forEach_rules ::
    "dom list \<Rightarrow> ignore_entry list \<Rightarrow> regexps \<Rightarrow> rule list \<Rightarrow> (exn + rule list) \<times> regexps"
  and filterUnusedRules ::
    "dom list \<Rightarrow> rule list \<Rightarrow> ignore_entry list \<Rightarrow> regexps \<Rightarrow> (exn + rule list) \<times> regexps"
where
  "forEach_rule doms ignore rs (Rule selectors decls) =
     (case filterUnusedSelectors doms selectors ignore rs of
        (Inl e, rs') \<Rightarrow> (Inl e, rs')
      | (Inr selectors', rs') \<Rightarrow> (Inr (Rule selectors' decls), rs'))"
| "forEach_rule doms ignore rs (Media media rules) =
     (case filterUnusedRules doms rules ignore rs of
        (Inl e, rs') \<Rightarrow> (Inl e, rs')
      | (Inr rules', rs') \<Rightarrow> (Inr (Media media rules'), rs'))"
| "forEach_rule doms ignore rs (Other t c) = (Inr (Other t c), rs)"
| "forEach_rules doms ignore rs [] = (Inr [], rs)"
| "forEach_rules doms ignore rs (r # rules) =
     (case forEach_rule doms ignore rs r of
        (Inl e, rs') \<Rightarrow> (Inl e, rs')
      | (Inr r', rs') \<Rightarrow>
          (case forEach_rules doms ignore rs' rules of
             (Inl e, rs'') \<Rightarrow> (Inl e, rs'')
           | (Inr rules', rs'') \<Rightarrow> (Inr (r' # rules'), rs'')))"
| "filterUnusedRules doms rules ignore rs =
     (case forEach_rules doms ignore rs rules of
        (Inl e, rs') \<Rightarrow> (Inl e, rs')
      | (Inr rules', rs') \<Rightarrow> (Inr (filter rule_kept rules'), rs'))"

section \<open>filterUnusedRules on the caller's tree\<close>

text \<open>
  The code does not build new nodes: \<open>forEach\<close> assigns the filtered selectors to the field
  \<open>selectors\<close> of each rule node and the pruned nested rules to the field \<open>rules\<close> of each
  media node, and \<open>filter\<close> then builds a new array of references to the same nodes. The
  store maps the address of a node to its fields; an array of nodes is the list of their
  addresses (the code builds arrays and never changes one). An address without a node
  stands for \<open>undefined\<close>, and reading its \<open>type\<close> throws.

  The nested rules are reached through the store, so the recursion is bounded by a
  number of nested calls \<open>n\<close>; \<open>None\<close> is the result when the bound is reached. A result
  is the value or the exception, the \<open>RegExp\<close> objects after the call and the store after
  the call.
\<close>

datatype node =
    Rule_node "string list" "css_declaration list"
  | Media_node string "addr list"
  | Other_node string string

type_synonym store = "addr \<Rightarrow> node option"



fun node_kept :: "node \<Rightarrow> bool" where
  "node_kept (Rule_node selectors decls) = (if length selectors = 0 then False else True)"
| "node_kept (Media_node media rules) = (if length rules = 0 then False else True)"
| "node_kept (Other_node t c) = True"

definition kept_st :: "store \<Rightarrow> addr \<Rightarrow> exn + bool" where
  \<comment> \<open>the callback of \<open>rules.filter\<close>, on the node at an address\<close>
  "kept_st st a = (case st a of None \<Rightarrow> Inl TypeError | Some x \<Rightarrow> Inr (node_kept x))"


text \<open>
  \<open>repr st a r F\<close>: in the store \<open>st\<close> the node at address \<open>a\<close> holds the tree \<open>r\<close>, whose
  nodes are at the addresses \<open>F\<close>, each node at an address of its own. \<open>depth\<close> is the number
  of nested calls that a tree needs.
\<close>

inductive repr :: "store \<Rightarrow> addr \<Rightarrow> rule \<Rightarrow> addr set \<Rightarrow> bool"
  and reprs :: "store \<Rightarrow> addr list \<Rightarrow> rule list \<Rightarrow> addr set \<Rightarrow> bool"
where
  repr_Rule: "st a = Some (Rule_node selectors decls) \<Longrightarrow> repr st a (Rule selectors decls) {a}"
| repr_Other: "st a = Some (Other_node t c) \<Longrightarrow> repr st a (Other t c) {a}"
| repr_Media: "st a = Some (Media_node media as) \<Longrightarrow> reprs st as rules F \<Longrightarrow> a \<notin> F
     \<Longrightarrow> repr st a (Media media rules) (insert a F)"
| reprs_Nil: "reprs st [] [] {}"
| reprs_Cons: "repr st a r F \<Longrightarrow> reprs st as rules G \<Longrightarrow> F \<inter> G = {}
     \<Longrightarrow> reprs st (a # as) (r # rules) (F \<union> G)"


text \<open>
  The nodes that \<open>filter\<close> drops from a nested array stay in the store, with the fields
  that \<open>forEach\<close> has assigned. \<open>visit_rule\<close> is \<open>forEach_rule\<close> without the \<open>filter\<close> of the
  nested calls: the tree of all the nodes of the input, each with its content after the
  call. \<open>survivors\<close> applies the \<open>filter\<close> of every media node to such a tree.
\<close>

fun visit_rule ::
    "dom list \<Rightarrow> ignore_entry list \<Rightarrow> regexps \<Rightarrow> rule \<Rightarrow> (exn + rule) \<times> regexps"
  and visit_rules ::
    "dom list \<Rightarrow> ignore_entry list \<Rightarrow> regexps \<Rightarrow> rule list \<Rightarrow> (exn + rule list) \<times> regexps"
where
  "visit_rule doms ignore rs (Rule selectors decls) =
     (case filterUnusedSelectors doms selectors ignore rs of
        (Inl e, rs') \<Rightarrow> (Inl e, rs')
      | (Inr selectors', rs') \<Rightarrow> (Inr (Rule selectors' decls), rs'))"
| "visit_rule doms ignore rs (Media media rules) =
     (case visit_rules doms ignore rs rules of
        (Inl e, rs') \<Rightarrow> (Inl e, rs')
      | (Inr vs, rs') \<Rightarrow> (Inr (Media media vs), rs'))"
| "visit_rule doms ignore rs (Other t c) = (Inr (Other t c), rs)"
| "visit_rules doms ignore rs [] = (Inr [], rs)"
| "visit_rules doms ignore rs (r # rules) =
     (case visit_rule doms ignore rs r of
        (Inl e, rs') \<Rightarrow> (Inl e, rs')
      | (Inr v, rs') \<Rightarrow>
          (case visit_rules doms ignore rs' rules of
             (Inl e, rs'') \<Rightarrow> (Inl e, rs'')
           | (Inr vs, rs'') \<Rightarrow> (Inr (v # vs), rs'')))"

fun survivors :: "rule \<Rightarrow> rule" where
  "survivors (Rule selectors decls) = Rule selectors decls"
| "survivors (Media media vs) = Media media (filter rule_kept (map survivors vs))"
| "survivors (Other t c) = Other t c"

text \<open>
  \<open>final st st' a v F\<close>: the node at address \<open>a\<close> and the nodes below it in the store \<open>st\<close>
  before the call, which are at the addresses \<open>F\<close>, each at an address of its own, hold
  in the store \<open>st'\<close> after the call the contents that the tree \<open>v\<close> gives: a rule node
  its selectors, a media node the addresses of those of its nested nodes that \<open>filter\<close>
  keeps, every nested node, kept or not, its own content.
\<close>

inductive final :: "store \<Rightarrow> store \<Rightarrow> addr \<Rightarrow> rule \<Rightarrow> addr set \<Rightarrow> bool"
  and finals :: "store \<Rightarrow> store \<Rightarrow> addr list \<Rightarrow> rule list \<Rightarrow> addr set \<Rightarrow> bool"
where
  final_Rule: "st a = Some (Rule_node selectors decls) \<Longrightarrow> st' a = Some (Rule_node selectors' decls)
     \<Longrightarrow> final st st' a (Rule selectors' decls) {a}"
| final_Other: "st a = Some (Other_node t c) \<Longrightarrow> st' a = Some (Other_node t c)
     \<Longrightarrow> final st st' a (Other t c) {a}"
| final_Media: "st a = Some (Media_node media as) \<Longrightarrow> finals st st' as vs F \<Longrightarrow> a \<notin> F
     \<Longrightarrow> st' a = Some (Media_node media (filter (\<lambda>b. kept_st st' b = Inr True) as))
     \<Longrightarrow> final st st' a (Media media vs) (insert a F)"
| finals_Nil: "finals st st' [] [] {}"
| finals_Cons: "final st st' a v F \<Longrightarrow> finals st st' as vs G \<Longrightarrow> F \<inter> G = {}
     \<Longrightarrow> finals st st' (a # as) (v # vs) (F \<union> G)"

section \<open>extractStylesheets\<close>

text \<open>
  A page is the list of its elements in document order; an element has a tag name and
  attributes (\<open>x.attribs\<close>). The selector that the code concatenates is
  \<open>media_selector_text\<close>. cheerio reads it as a comma-separated list of compound selectors:
  \<open>media_selector\<close> is that list, and \<open>matches_compound\<close> gives the meaning of the three
  forms that occur in it: a tag name, \<open>[name="value"]\<close> and \<open>:not(name)\<close>, whose argument
  \<open>media\<close> is a tag name. The query returns the elements that match one of the compound
  selectors, in document order.

  The code puts each media value into the text as it is. The text reads as
  \<open>media_selector\<close> when no value holds a character that ends the quoted value or the
  attribute selector (\<open>plain_media\<close>); a value with such a character changes the
  selectors of the text, and for it \<open>extractStylesheets\<close> is \<open>None\<close>: the model does not
  say what the code returns then.
\<close>

record element =
  tag :: string
  attribs :: "(string \<times> string) list"

datatype simple_selector = Attr_eq string string | Not_tag string

datatype compound_selector = Compound string "simple_selector list"

fun uniq :: "'a list \<Rightarrow> 'a list \<Rightarrow> 'a list" where
  \<comment> \<open>\<open>_.uniq\<close>: the first occurrence of each value, \<open>seen\<close> holding the values passed\<close>
  "uniq seen [] = []"
| "uniq seen (x # xs) = (if x \<in> set seen then uniq seen xs else x # uniq (x # seen) xs)"

definition underscore_union :: "'a list \<Rightarrow> 'a list \<Rightarrow> 'a list" where
  "underscore_union xs ys = uniq [] (xs @ ys)"

definition media_selector_text :: "string list \<Rightarrow> string" where
  "media_selector_text media =
     ''link[rel='' @ [dquote] @ ''stylesheet'' @ [dquote] @ '']:not(media),'' @
     join '', '' (map (\<lambda>selector. ''link[rel='' @ [dquote] @ ''stylesheet'' @ [dquote] @ '']''
                       @ ''[media='' @ [dquote] @ selector @ [dquote] @ '']'') media)"

definition plain_media :: "string \<Rightarrow> bool" where
  \<comment> \<open>no double quote, backslash, bracket or line break\<close>
  "plain_media v =
     list_all (\<lambda>c. c \<notin> set [dquote, CHR 0x5C, CHR ''['', CHR '']'', CHR 0x0A, CHR 0x0C, CHR 0x0D]) v"

definition media_selector :: "string list \<Rightarrow> compound_selector list" where
  "media_selector media =
     Compound ''link'' [Attr_eq ''rel'' ''stylesheet'', Not_tag ''media''] #
     map (\<lambda>selector. Compound ''link'' [Attr_eq ''rel'' ''stylesheet'', Attr_eq ''media'' selector])
       media"

fun show_simple :: "simple_selector \<Rightarrow> string" where
  "show_simple (Attr_eq name v) = ''['' @ name @ ''='' @ [dquote] @ v @ [dquote] @ '']''"
| "show_simple (Not_tag name) = '':not('' @ name @ '')''"

fun show_compound :: "compound_selector \<Rightarrow> string" where
  "show_compound (Compound name ss) = name @ concat (map show_simple ss)"

fun matches_simple :: "element \<Rightarrow> simple_selector \<Rightarrow> bool" where
  "matches_simple x (Attr_eq name v) = (map_of (attribs x) name = Some v)"
| "matches_simple x (Not_tag name) = (tag x \<noteq> name)"

fun matches_compound :: "element \<Rightarrow> compound_selector \<Rightarrow> bool" where
  "matches_compound x (Compound name ss) = (tag x = name \<and> list_all (matches_simple x) ss)"

definition query :: "element list \<Rightarrow> compound_selector list \<Rightarrow> element list" where
  "query page sels = filter (\<lambda>x. list_ex (matches_compound x) sels) page"

definition extractStylesheets ::
    "element list \<Rightarrow> string list \<Rightarrow> string option list option" where
  \<comment> \<open>\<open>x.attribs.href\<close> is \<open>undefined\<close> (\<open>None\<close>) for a link without the attribute\<close>
  "extractStylesheets page options_media =
     (let media = underscore_union [''screen'', ''all''] options_media
      in if list_all plain_media media then
           (let stylesheets = query page (media_selector media)
            in Some (map (\<lambda>x. map_of (attribs x) ''href'') stylesheets))
         else None)"

section \<open>mapReadFiles\<close>

text \<open>
  The callback that \<open>async.map\<close> applies to each file name starts one of three actions: an
  HTTP request, \<open>fs.readFile\<close>, or the call of \<open>done\<close> with an error string. The functions
  of the environment that it consults, \<open>fs.existsSync\<close>, \<open>path.join\<close> and
  \<open>process.cwd()\<close>, are parameters. \<open>matches_at_start\<close> is the match of an expression
  \<open>/^.../\<close> made of literal characters.
\<close>

datatype io_call =
    Request string "(string \<times> string) list"
  | ReadFile string string
  | Done_error string

fun matches_at_start :: "string \<Rightarrow> string \<Rightarrow> bool" where
  "matches_at_start [] s = True"
| "matches_at_start (p # ps) [] = False"
| "matches_at_start (p # ps) (c # cs) = (p = c \<and> matches_at_start ps cs)"

definition mapReadFiles_iteratee ::
    "(string \<Rightarrow> bool) \<Rightarrow> (string \<Rightarrow> string \<Rightarrow> string) \<Rightarrow> string \<Rightarrow> string \<Rightarrow> io_call" where
  "mapReadFiles_iteratee existsSync path_join cwd filename =
     (if matches_at_start ''http'' filename then
        Request filename [(''User-Agent'', ''UnCSS'')]
      else if existsSync filename then ReadFile filename ''utf8''
      else Done_error (''Error - could not open: '' @ path_join cwd filename))"

definition mapReadFiles ::
    "(string \<Rightarrow> bool) \<Rightarrow> (string \<Rightarrow> string \<Rightarrow> string) \<Rightarrow> string \<Rightarrow> string list \<Rightarrow> io_call list" where
  "mapReadFiles existsSync path_join cwd files =
     map (mapReadFiles_iteratee existsSync path_join cwd) files"

section \<open>Example inputs\<close>

definition raising_dom :: dom where
  \<comment> \<open>a snapshot whose query throws on every selector\<close>
  "raising_dom selector = None"

definition class_a_dom :: dom where
  \<comment> \<open>a page with one element of class \<open>a\<close>; the engine throws on a colon\<close>
  "class_a_dom selector =
     (if CHR '':'' \<in> set selector then None
      else if selector = ''.a'' then Some 1
      else Some 0)"

definition js_link :: string where
  "js_link = ''a[href='' @ [dquote] @ ''javascript:'' @ [dquote] @ '']''"

definition dot_b_at :: "string \<Rightarrow> nat \<Rightarrow> nat option" where
  \<comment> \<open>the pattern \<open>^\.b\<close>: it matches at the index 0 only, and ends at the index 2\<close>
  "dot_b_at s i = (if i = 0 \<and> matches_at_start ''.b'' s then Some 2 else None)"

definition dot_b_plain :: regexp where
  \<comment> \<open>\<open>/^\.b/\<close>\<close>
  "dot_b_plain = \<lparr>match_at = dot_b_at, global = False, sticky = False, lastIndex = 0\<rparr>"

definition dot_b_global :: regexp where
  \<comment> \<open>\<open>/^\.b/g\<close>\<close>
  "dot_b_global = \<lparr>match_at = dot_b_at, global = True, sticky = False, lastIndex = 0\<rparr>"

definition plain_regexps :: regexps where
  \<comment> \<open>the object \<open>/^\.b/\<close> at every address\<close>
  "plain_regexps a = dot_b_plain"

definition global_regexps :: regexps where
  \<comment> \<open>the object \<open>/^\.b/g\<close> at every address, as it is when created\<close>
  "global_regexps a = dot_b_global"

definition used_regexps :: regexps where
  \<comment> \<open>the object \<open>/^\.b/g\<close> at every address, as a successful test leaves it\<close>
  "used_regexps a = dot_b_global\<lparr>lastIndex := 2\<rparr>"

definition print_link :: element where
  "print_link = \<lparr>tag = ''link'',
     attribs = [(''rel'', ''stylesheet''), (''media'', ''print''), (''href'', ''print.css'')]\<rparr>"

definition no_file :: "string \<Rightarrow> bool" where
  "no_file filename = False"

definition slash_join :: "string \<Rightarrow> string \<Rightarrow> string" where
  "slash_join dir filename = dir @ ''/'' @ filename"





section \<open>The predicates of the specification\<close>

text \<open>
  \<open>kept_as_claimed\<close> is the condition under which the specification keeps a selector: it
  begins with \<open>@\<close>, or it matches an ignore entry, or it matches in a snapshot, directly or,
  when the direct query throws, through the fallback selector. An expression of the
  ignore list matches when its \<open>test\<close>, run on the object as it is, returns \<open>true\<close>.
  \<open>fails_open\<close> is the case that the condition leaves out: the direct query and the query
  of the fallback selector both throw.
\<close>

definition ignore_matches :: "regexps \<Rightarrow> ignore_entry \<Rightarrow> string \<Rightarrow> bool" where
  "ignore_matches rs e selector =
     (case e of Literal l \<Rightarrow> l = selector | Pattern a \<Rightarrow> fst (test (rs a) selector))"

definition snapshot_matches :: "dom \<Rightarrow> string \<Rightarrow> bool" where
  "snapshot_matches d selector =
     (case d selector of
        Some n \<Rightarrow> 0 < n
      | None \<Rightarrow>
          (case normalize_selector selector of
             Inl e \<Rightarrow> False
           | Inr temp \<Rightarrow> (case d temp of Some n \<Rightarrow> 0 < n | None \<Rightarrow> False)))"

definition kept_as_claimed ::
    "dom list \<Rightarrow> ignore_entry list \<Rightarrow> regexps \<Rightarrow> string \<Rightarrow> bool" where
  "kept_as_claimed doms ignore rs selector =
     (take 1 selector = ''@''
      \<or> list_ex (\<lambda>e. ignore_matches rs e selector) ignore
      \<or> list_ex (\<lambda>d. snapshot_matches d selector) doms)"

definition fails_open :: "dom \<Rightarrow> string \<Rightarrow> bool" where
  "fails_open d selector =
     (case d selector of
        Some n \<Rightarrow> False
      | None \<Rightarrow>
          (case normalize_selector selector of
             Inl e \<Rightarrow> False
           | Inr temp \<Rightarrow> (case d temp of Some n \<Rightarrow> False | None \<Rightarrow> True)))"

definition kept_amended ::
    "dom list \<Rightarrow> ignore_entry list \<Rightarrow> regexps \<Rightarrow> string \<Rightarrow> bool" where
  "kept_amended doms ignore rs selector =
     (kept_as_claimed doms ignore rs selector \<or> list_ex (\<lambda>d. fails_open d selector) doms)"

text \<open>
  \<open>stateless ignore rs\<close>: no expression of the ignore list has the flag \<open>g\<close> or \<open>y\<close>, so
  that no \<open>test\<close> reads or writes \<open>lastIndex\<close>.
\<close>

definition stateless :: "ignore_entry list \<Rightarrow> regexps \<Rightarrow> bool" where
  "stateless ignore rs =
     list_all (\<lambda>e. case e of Literal l \<Rightarrow> True
                    | Pattern a \<Rightarrow> \<not> global (rs a) \<and> \<not> sticky (rs a)) ignore"

text \<open>
  \<open>links_as_claimed\<close> are the links that the specification lets \<open>extractStylesheets\<close>
  return: the stylesheet links whose \<open>media\<close> attribute is absent, \<open>screen\<close>, \<open>all\<close> or one of
  the configured values.
\<close>

definition links_as_claimed :: "element list \<Rightarrow> string list \<Rightarrow> element list" where
  "links_as_claimed page options_media =
     filter (\<lambda>x. tag x = ''link'' \<and> map_of (attribs x) ''rel'' = Some ''stylesheet''
                \<and> (case map_of (attribs x) ''media'' of
                      None \<Rightarrow> True
                    | Some m \<Rightarrow> m \<in> set ([''screen'', ''all''] @ options_media))) page"


section \<open>Properties of the filters on lists\<close>

lemma filter_exn_Inr:
  "filter_exn f xs = Inr ys \<Longrightarrow> ys = filter (\<lambda>x. f x = Inr True) xs"
  by (induction xs arbitrary: ys) (auto split: sum.splits if_splits)


lemma filter_exn_returns:
  "filter_exn f xs = Inr ys \<Longrightarrow> x \<in> set xs \<Longrightarrow> \<exists>b. f x = Inr b"
  by (induction xs arbitrary: ys) (auto split: sum.splits)

lemma filter_st_const:
  "(\<And>x. x \<in> set xs \<Longrightarrow> snd (f s x) = s)
     \<Longrightarrow> filter_st f xs s = (filter_exn (\<lambda>x. fst (f s x)) xs, s)"
proof (induction xs)
  case Nil
  show ?case by simp
next
  case (Cons x xs)
  then have tail: "filter_st f xs s = (filter_exn (\<lambda>x. fst (f s x)) xs, s)" by simp
  from Cons.prems have "snd (f s x) = s" by simp
  then have head: "f s x = (fst (f s x), s)" by (metis prod.collapse)
  show ?case
    by (cases "fst (f s x)")
       (use head tail in \<open>auto simp: split_beta split: sum.splits prod.splits\<close>)
qed

lemma filter_st_keeps:
  assumes "\<And>s. fst (f s x) = Inr True"
  shows "fst (filter_st f xs s) = Inr out \<Longrightarrow> x \<in> set xs \<Longrightarrow> x \<in> set out"
proof (induction xs arbitrary: s out)
  case Nil
  then show ?case by simp
next
  case (Cons y xs)
  obtain r s' where y: "f s y = (r, s')" by (cases "f s y")
  obtain r' s'' where tl: "filter_st f xs s' = (r', s'')" by (cases "filter_st f xs s'")
  from Cons.prems(1) y tl obtain b ys where r: "r = Inr b" and r': "r' = Inr ys"
    and out: "out = (if b then y # ys else ys)"
    by (auto split: sum.splits)
  show ?case
  proof (cases "x = y")
    case True
    with assms [of s] y r have b by simp
    with out True show ?thesis by simp
  next
    case False
    with Cons.prems(2) have "x \<in> set xs" by simp
    moreover from tl r' have "fst (filter_st f xs s') = Inr ys" by simp
    ultimately have "x \<in> set ys" by (rule Cons.IH [rotated])
    with out show ?thesis by simp
  qed
qed



section \<open>The tests of the ignore list\<close>

lemma test_stateless: "\<not> global r \<Longrightarrow> \<not> sticky r \<Longrightarrow> snd (test r s) = r"
  by (simp add: test_def split: option.splits)

lemma regexp_found_stateless:
  "stateless ignore rs \<Longrightarrow>
     regexp_found ignore selector rs
       = (list_ex (\<lambda>e. case e of Literal l \<Rightarrow> False
                       | Pattern a \<Rightarrow> fst (test (rs a) selector)) ignore, rs)"
proof (induction ignore)
  case Nil
  show ?case by simp
next
  case (Cons e ignore)
  from Cons have tail: "regexp_found ignore selector rs
      = (list_ex (\<lambda>e. case e of Literal l \<Rightarrow> False
                     | Pattern a \<Rightarrow> fst (test (rs a) selector)) ignore, rs)"
    by (simp add: stateless_def)
  show ?case
  proof (cases e)
    case (Literal l)
    with tail show ?thesis by simp
  next
    case (Pattern a)
    with Cons.prems have "\<not> global (rs a)" "\<not> sticky (rs a)" by (simp_all add: stateless_def)
    then have "snd (test (rs a) selector) = rs a" by (rule test_stateless)
    then obtain b where "test (rs a) selector = (b, rs a)" by (metis prod.collapse)
    with Pattern tail show ?thesis by (cases b) simp_all
  qed
qed

text \<open>
  With the flag \<open>g\<close> the outcome of a test depends on the tests before it: of three
  selectors \<open>.b\<close> the expression \<open>/^\.b/g\<close> keeps the first and the third. An object that
  occurs twice in the ignore list is tested twice: after a successful test of another
  selector, the first test of \<open>.b\<close> fails and resets \<open>lastIndex\<close>, and the second succeeds;
  two objects in that state both fail.
\<close>

lemma global_regexp_alternates:
  "fst (filterUnusedSelectors [] [''.b'', ''.b'', ''.b''] [Pattern 0] global_regexps)
     = Inr [''.b'', ''.b'']
   \<and> fst (filterUnusedSelectors [] [''.b''] [Pattern 0, Pattern 0] used_regexps) = Inr [''.b'']
   \<and> fst (filterUnusedSelectors [] [''.b''] [Pattern 0, Pattern 1] used_regexps) = Inr []"
  by code_simp

section \<open>Which selectors are kept\<close>

lemma match_doms_step:
  assumes "match_doms (d # doms) selector = Inr b"
  shows "(b \<and> (snapshot_matches d selector \<or> fails_open d selector))
         \<or> (\<not> snapshot_matches d selector \<and> \<not> fails_open d selector
             \<and> match_doms doms selector = Inr b)"
  using assms
  by (auto simp: snapshot_matches_def fails_open_def split: option.splits sum.splits if_splits)

lemma match_doms_Inr:
  "match_doms doms selector = Inr b \<Longrightarrow>
     b = (list_ex (\<lambda>d. snapshot_matches d selector) doms
          \<or> list_ex (\<lambda>d. fails_open d selector) doms)"
proof (induction doms)
  case Nil
  then show ?case by simp
next
  case (Cons d doms)
  from match_doms_step [OF Cons.prems] show ?case
  proof
    assume "b \<and> (snapshot_matches d selector \<or> fails_open d selector)"
    then show ?thesis by auto
  next
    assume "\<not> snapshot_matches d selector \<and> \<not> fails_open d selector
            \<and> match_doms doms selector = Inr b"
    with Cons.IH show ?thesis by simp
  qed
qed

lemma ignore_found:
  "(indexOf_found ignore selector
      \<or> list_ex (\<lambda>e. case e of Literal l \<Rightarrow> False
                     | Pattern a \<Rightarrow> fst (test (rs a) selector)) ignore)
     = list_ex (\<lambda>e. ignore_matches rs e selector) ignore"
proof (induction ignore)
  case Nil
  show ?case by simp
next
  case (Cons e ignore)
  then show ?case by (cases e) (auto simp: ignore_matches_def)
qed

lemma selector_filter_stateless:
  assumes "stateless ignore rs"
  shows "selector_filter doms ignore rs selector =
     (if take 1 selector = ''@'' \<or> list_ex (\<lambda>e. ignore_matches rs e selector) ignore
      then Inr True else match_doms doms selector, rs)"
proof -
  have at: "(case selector of [] \<Rightarrow> False | c # cs \<Rightarrow> c = CHR ''@'') = (take 1 selector = ''@'')"
    by (cases selector) auto
  show ?thesis
    unfolding selector_filter_def at regexp_found_stateless [OF assms]
    using ignore_found [of ignore selector rs] by auto
qed

lemma selector_filter_Inr:
  assumes "stateless ignore rs" and "fst (selector_filter doms ignore rs selector) = Inr b"
  shows "b = kept_amended doms ignore rs selector"
proof (cases "take 1 selector = ''@'' \<or> list_ex (\<lambda>e. ignore_matches rs e selector) ignore")
  case True
  with assms show ?thesis
    by (auto simp: selector_filter_stateless kept_amended_def kept_as_claimed_def)
next
  case False
  with assms have "match_doms doms selector = Inr b"
    by (simp add: selector_filter_stateless)
  from match_doms_Inr [OF this] False show ?thesis
    by (simp add: kept_amended_def kept_as_claimed_def)
qed

lemma filterUnusedSelectors_stateless:
  assumes "stateless ignore rs"
  shows "filterUnusedSelectors doms selectors ignore rs
           = (filter_exn (\<lambda>s. fst (selector_filter doms ignore rs s)) selectors, rs)"
  unfolding filterUnusedSelectors_def
  by (rule filter_st_const) (simp add: selector_filter_stateless [OF assms])

text \<open>
  Claim C1, as amended. When no expression of the ignore list has the flag \<open>g\<close> or \<open>y\<close>
  and \<open>filterUnusedSelectors\<close> returns, its result is the list of the selectors, in their
  order, that begin with \<open>@\<close>, or are equal to a string of the ignore list, or pass the
  test of a regular expression of the ignore list, or match an element in a snapshot
  (directly, or through the fallback selector when the direct query throws), or, the case
  that the claim leaves out, fail open at a snapshot: the direct query and the query of
  the fallback selector both throw there.
\<close>

theorem selectors_kept_iff:
  assumes "stateless ignore rs"
    and "fst (filterUnusedSelectors doms selectors ignore rs) = Inr out"
  shows "out = filter (kept_amended doms ignore rs) selectors"
proof -
  let ?f = "\<lambda>s. fst (selector_filter doms ignore rs s)"
  from assms have run: "filter_exn ?f selectors = Inr out"
    by (simp add: filterUnusedSelectors_stateless)
  have "filter (\<lambda>s. ?f s = Inr True) selectors = filter (kept_amended doms ignore rs) selectors"
  proof (rule filter_cong [OF refl])
    fix s assume "s \<in> set selectors"
    with filter_exn_returns [OF run] obtain c where c: "?f s = Inr c" by blast
    from selector_filter_Inr [OF assms(1) c] c
    show "(?f s = Inr True) = kept_amended doms ignore rs s" by auto
  qed
  with filter_exn_Inr [OF run] show ?thesis by simp
qed

theorem selectors_kept_iff_witness:
  "stateless [Literal ''.c'', Pattern 0] plain_regexps
   \<and> fst (filterUnusedSelectors [class_a_dom] [''.a'', ''.b'', ''@page'', ''.c:hover'', ''.b'', ''.d'']
        [Literal ''.c'', Pattern 0] plain_regexps)
     = Inr [''.a'', ''.b'', ''@page'', ''.b'']
   \<and> [''.a'', ''.b'', ''@page'', ''.b'']
     = filter (kept_amended [class_a_dom] [Literal ''.c'', Pattern 0] plain_regexps)
         [''.a'', ''.b'', ''@page'', ''.c:hover'', ''.b'', ''.d'']"
proof -
  have pure: "stateless [Literal ''.c'', Pattern 0] plain_regexps"
    by (simp add: stateless_def plain_regexps_def dot_b_plain_def)
  have run: "fst (filterUnusedSelectors [class_a_dom]
               [''.a'', ''.b'', ''@page'', ''.c:hover'', ''.b'', ''.d'']
               [Literal ''.c'', Pattern 0] plain_regexps)
             = Inr [''.a'', ''.b'', ''@page'', ''.b'']"
    by code_simp
  from selectors_kept_iff [OF pure run] pure run show ?thesis by simp
qed

text \<open>
  Claim C1 as stated fails. With one snapshot whose query throws on every selector, the
  selector \<open>a:hover\<close> is kept although it does not begin with \<open>@\<close>, matches no ignore entry
  and matches no element of any snapshot. With the expression \<open>/^\.b/g\<close> in the ignore
  list and no snapshot, the second of three selectors \<open>.b\<close> is not kept although the
  expression matches it.
\<close>

theorem selectors_kept_counterexample:
  "fst (filterUnusedSelectors [raising_dom] [''a:hover''] [] plain_regexps) = Inr [''a:hover'']
   \<and> \<not> kept_as_claimed [raising_dom] [] plain_regexps ''a:hover''
   \<and> fst (filterUnusedSelectors [] [''.b'', ''.b'', ''.b''] [Pattern 0] global_regexps)
       = Inr [''.b'', ''.b'']
   \<and> kept_as_claimed [] [Pattern 0] global_regexps ''.b''"
  by code_simp

section \<open>Failing open\<close>

lemma match_doms_fail_open:
  assumes "d \<in> set doms" and "d selector = None"
    and "normalize_selector selector = Inr temp" and "d temp = None"
  shows "match_doms doms selector = Inr True"
  using assms(1)
proof (induction doms)
  case Nil
  then show ?case by simp
next
  case (Cons x doms)
  show ?case
  proof (cases "x = d")
    case True
    with assms show ?thesis by simp
  next
    case False
    with Cons have "match_doms doms selector = Inr True" by simp
    with assms(3) show ?thesis by (simp split: option.splits)
  qed
qed

lemma selector_filter_fail_open:
  assumes "d \<in> set doms" and "d selector = None"
    and "normalize_selector selector = Inr temp" and "d temp = None"
  shows "fst (selector_filter doms ignore rs selector) = Inr True"
proof -
  obtain b rs' where "regexp_found ignore selector rs = (b, rs')"
    by (cases "regexp_found ignore selector rs")
  with match_doms_fail_open [OF assms] show ?thesis
    by (cases b) (simp_all add: selector_filter_def)
qed

text \<open>
  Claim C2. If at some snapshot of the list the direct query of a selector throws and the
  query of its fallback selector throws too, then the callback of the filter returns
  \<open>true\<close> for the selector, whatever the snapshots hold and whatever the ignore list and
  the state of its expressions are: the selector alone is returned as it is, and it is
  in the result of every call that returns and whose selectors contain it.
\<close>

theorem fail_open_keeps_selector:
  assumes "d \<in> set doms" and "d selector = None"
    and "normalize_selector selector = Inr temp" and "d temp = None"
  shows "fst (selector_filter doms ignore rs selector) = Inr True
         \<and> fst (filterUnusedSelectors doms [selector] ignore rs) = Inr [selector]
         \<and> (fst (filterUnusedSelectors doms selectors ignore rs) = Inr out
              \<and> selector \<in> set selectors
              \<longrightarrow> selector \<in> set out)"
proof -
  have t: "fst (selector_filter doms ignore rs' selector) = Inr True" for rs'
    by (rule selector_filter_fail_open [OF assms])
  have "selector \<in> set out"
    if "fst (filterUnusedSelectors doms selectors ignore rs) = Inr out" "selector \<in> set selectors"
    using that unfolding filterUnusedSelectors_def
    by (rule filter_st_keeps [of "selector_filter doms ignore" selector, OF t])
  moreover have "fst (filterUnusedSelectors doms [selector] ignore rs) = Inr [selector]"
    using t [of rs]
    by (cases "selector_filter doms ignore rs selector") (simp add: filterUnusedSelectors_def)
  ultimately show ?thesis using t by simp
qed

theorem fail_open_keeps_selector_witness:
  "raising_dom \<in> set [class_a_dom, raising_dom] \<and> raising_dom ''.b:hover'' = None
   \<and> normalize_selector ''.b:hover'' = Inr ''.b'' \<and> raising_dom ''.b'' = None
   \<and> fst (selector_filter [class_a_dom, raising_dom] [Pattern 0] global_regexps ''.b:hover'')
       = Inr True
   \<and> fst (filterUnusedSelectors [class_a_dom, raising_dom] [''.b:hover''] [Pattern 0]
            global_regexps)
       = Inr [''.b:hover'']"
proof -
  have 1: "raising_dom \<in> set [class_a_dom, raising_dom]" by simp
  have 2: "raising_dom ''.b:hover'' = None" by (simp add: raising_dom_def)
  have 3: "normalize_selector ''.b:hover'' = Inr ''.b''" by code_simp
  have 4: "raising_dom ''.b'' = None" by (simp add: raising_dom_def)
  from fail_open_keeps_selector [OF 1 2 3 4] 1 2 3 4 show ?thesis by simp
qed

section \<open>Media blocks\<close>

lemma forEach_rules_append:
  "forEach_rules doms ignore rs (xs @ ys) =
     (case forEach_rules doms ignore rs xs of
        (Inl e, rs') \<Rightarrow> (Inl e, rs')
      | (Inr xs', rs') \<Rightarrow>
          (case forEach_rules doms ignore rs' ys of
             (Inl e, rs'') \<Rightarrow> (Inl e, rs'')
           | (Inr ys', rs'') \<Rightarrow> (Inr (xs' @ ys'), rs'')))"
  by (induction xs arbitrary: rs) (auto split: sum.splits prod.splits)

text \<open>
  Claim C3. A media block of a rule list is pruned by the recursive call on its nested
  rules: when the pruned nested list is empty the block is absent from the result, and
  otherwise it is kept at its place with the surviving nested rules and its media string
  unchanged. The rules before and after it are pruned on their own, each part with the
  expressions of the ignore list as the part before has left them; an exception of any
  of the three parts is the exception of the call.
\<close>

theorem media_block_pruned:
  "filterUnusedRules doms (pre @ Media media rules # post) ignore rs =
     (case filterUnusedRules doms pre ignore rs of
        (Inl e, rs1) \<Rightarrow> (Inl e, rs1)
      | (Inr pre', rs1) \<Rightarrow>
          (case filterUnusedRules doms rules ignore rs1 of
             (Inl e, rs2) \<Rightarrow> (Inl e, rs2)
           | (Inr rules', rs2) \<Rightarrow>
               (case filterUnusedRules doms post ignore rs2 of
                  (Inl e, rs3) \<Rightarrow> (Inl e, rs3)
                | (Inr post', rs3) \<Rightarrow>
                    (Inr (pre' @ (if rules' = [] then [] else [Media media rules']) @ post'),
                     rs3))))"
  by (auto simp: forEach_rules_append split: sum.splits prod.splits)

theorem media_block_pruned_witness:
  "fst (filterUnusedRules [class_a_dom]
     [Rule [''.b''] [(''x'', ''0'')],
      Media ''screen'' [Rule [''.a''] [(''x'', ''1'')], Rule [''.b''] [(''x'', ''2'')]],
      Media ''print'' [Rule [''.b''] [(''x'', ''3'')]]] [] plain_regexps)
   = Inr [Media ''screen'' [Rule [''.a''] [(''x'', ''1'')]]]"
proof -
  have pre: "filterUnusedRules [class_a_dom] [Rule [''.b''] [(''x'', ''0'')]] [] plain_regexps
      = (Inr [], plain_regexps)"
    by (simp add: filterUnusedSelectors_def selector_filter_def class_a_dom_def)
  have nested: "filterUnusedRules [class_a_dom]
      [Rule [''.a''] [(''x'', ''1'')], Rule [''.b''] [(''x'', ''2'')]] [] plain_regexps
      = (Inr [Rule [''.a''] [(''x'', ''1'')]], plain_regexps)"
    by (simp add: filterUnusedSelectors_def selector_filter_def class_a_dom_def)
  have post: "filterUnusedRules [class_a_dom] [Media ''print'' [Rule [''.b''] [(''x'', ''3'')]]] []
      plain_regexps = (Inr [], plain_regexps)"
    by (simp add: filterUnusedSelectors_def selector_filter_def class_a_dom_def)
  from media_block_pruned [where doms = "[class_a_dom]" and pre = "[Rule [''.b''] [(''x'', ''0'')]]"
      and media = "''screen''"
      and rules = "[Rule [''.a''] [(''x'', ''1'')], Rule [''.b''] [(''x'', ''2'')]]"
      and post = "[Media ''print'' [Rule [''.b''] [(''x'', ''3'')]]]" and ignore = "[]"
      and rs = plain_regexps]
  show ?thesis by (simp del: filterUnusedRules.simps add: pre nested post)
qed

section \<open>Idempotence\<close>











section \<open>Exceptions that escape\<close>

lemma selector_filter_throws:
  assumes "stateless ignore rs"
    and "normalize_selector selector = Inl TypeError" and "d selector = None"
    and "take 1 selector \<noteq> ''@''" and "\<not> list_ex (\<lambda>e. ignore_matches rs e selector) ignore"
  shows "fst (selector_filter (d # doms) ignore rs selector) = Inl TypeError"
  using assms by (simp add: selector_filter_stateless)

text \<open>
  Claim C5 fails at the selector \<open>:\<close> and a snapshot whose query throws on it. The code
  computes the fallback selector inside the \<open>catch\<close> block and outside the inner \<open>try\<close>;
  the token \<open>:\<close> has no match for the second expression, \<open>match\<close> returns \<open>null\<close>, and the
  \<open>TypeError\<close> of \<open>null[0]\<close> leaves \<open>filterUnusedSelectors\<close> and \<open>filterUnusedRules\<close>.
\<close>

theorem normalization_failure_escapes:
  "normalize_selector '':'' = Inl TypeError
   \<and> fst (filterUnusedSelectors [raising_dom] ['':''] [] plain_regexps) = Inl TypeError
   \<and> fst (filterUnusedRules [raising_dom] [Rule ['':''] [(''color'', ''red'')]] [] plain_regexps)
       = Inl TypeError"
  by code_simp

section \<open>The fallback selector\<close>

text \<open>
  Claim C6 fails at the selector \<open>a/*x*/:hover\<close>. \<open>replace\<close> is called without a
  replacement, so the comment is replaced by the text \<open>undefined\<close>, which stays in the
  fallback selector; only the first comment is replaced, a second one stays as it is.
\<close>

theorem comment_replaced_by_undefined:
  "replace_comment ''a/*x*/:hover'' = ''aundefined:hover''
   \<and> normalize_selector ''a/*x*/:hover'' = Inr ''aundefined''
   \<and> normalize_selector ''a/*x*/ b/*y*/'' = Inr ''aundefined b/*y*/''"
  by code_simp

lemma first_match_leading_colon: "first_match (CHR '':'' # str) = first_match str"
  by (simp add: first_match_def match_g_def prefix_char_def dquote_def)

text \<open>
  Claim C7 fails at the token \<open>:hover\<close>. The code takes the first match of the second
  expression in the token; in a token that begins with a colon the first match starts
  after the colon, so the token becomes \<open>hover\<close>, not the empty string. The claim's other
  example holds: the token \<open>a[href="javascript:"]:hover\<close> becomes
  \<open>a[href="javascript:"]\<close>.
\<close>

theorem leading_colon_keeps_pseudo_name:
  "first_match '':hover'' = Inr ''hover''
   \<and> normalize_selector '':hover'' = Inr ''hover''
   \<and> first_match (js_link @ '':hover'') = Inr js_link"
  by code_simp

section \<open>The stylesheet links\<close>

lemma media_selector_text_show:
  "media_selector_text media =
     (case media_selector media of
        c # cs \<Rightarrow> show_compound c @ '','' @ join '', '' (map show_compound cs))"
  by (simp add: media_selector_text_def media_selector_def comp_def)

lemma extractStylesheets_all_links:
  assumes "list_all plain_media options_media"
  shows "extractStylesheets page options_media =
     Some (map (\<lambda>x. map_of (attribs x) ''href'')
       (filter (\<lambda>x. tag x = ''link'' \<and> map_of (attribs x) ''rel'' = Some ''stylesheet'') page))"
proof -
  have m: "list_ex (matches_compound x) (media_selector media)
          = (tag x = ''link'' \<and> map_of (attribs x) ''rel'' = Some ''stylesheet'')" for x media
    by (auto simp: media_selector_def list_ex_iff)
  have sub: "set (uniq seen xs) \<subseteq> set xs" for seen and xs :: "string list"
    by (induction xs arbitrary: seen) auto
  have "plain_media ''screen''" "plain_media ''all''"
    by (simp_all add: plain_media_def dquote_def)
  with assms have "list_all plain_media ([''screen'', ''all''] @ options_media)" by simp
  with sub [of "[]" "[''screen'', ''all''] @ options_media"]
  have "list_all plain_media (underscore_union [''screen'', ''all''] options_media)"
    unfolding underscore_union_def list_all_iff by blast
  then show ?thesis by (simp add: extractStylesheets_def query_def Let_def m)
qed

text \<open>
  Claim C8 fails at a page whose only stylesheet link has the media \<open>print\<close>, with no
  extra media configured. The first selector of the query is
  \<open>link[rel="stylesheet"]:not(media)\<close>, and \<open>:not(media)\<close> excludes the elements named
  \<open>media\<close>, not the links with a \<open>media\<close> attribute: every stylesheet link matches it, and
  the link is returned although its media is not among the values that the claim allows.
\<close>

theorem print_link_extracted:
  "extractStylesheets [print_link] [] = Some [Some ''print.css'']
   \<and> links_as_claimed [print_link] [] = []"
  by code_simp

section \<open>The sources of the stylesheets\<close>

lemma matches_at_start_prefix: "matches_at_start p s = prefix p s"
  by (induction p s rule: matches_at_start.induct) auto

text \<open>
  Claim C10. The callback of \<open>mapReadFiles\<close> decides by the test \<open>/^http/\<close> alone: a file
  name that begins with \<open>http\<close> is requested as a URL, any other file name is read from
  the disk when it exists there, and otherwise \<open>done\<close> receives the string
  \<open>Error - could not open: \<close> followed by \<open>path.join(process.cwd(), filename)\<close>.
  \<open>mapReadFiles\<close> applies the callback to every file name, in order.
\<close>

theorem mapReadFiles_classifies:
  "mapReadFiles existsSync path_join cwd files =
     map (\<lambda>filename.
            if prefix ''http'' filename then Request filename [(''User-Agent'', ''UnCSS'')]
            else if existsSync filename then ReadFile filename ''utf8''
            else Done_error (''Error - could not open: '' @ path_join cwd filename)) files"
  by (simp add: mapReadFiles_def mapReadFiles_iteratee_def matches_at_start_prefix)

theorem mapReadFiles_classifies_witness:
  "mapReadFiles no_file slash_join ''/srv'' [''httpdocs/a.css'', ''css/a.css'', ''http://x/a.css'']
   = [Request ''httpdocs/a.css'' [(''User-Agent'', ''UnCSS'')],
      Done_error ''Error - could not open: /srv/css/a.css'',
      Request ''http://x/a.css'' [(''User-Agent'', ''UnCSS'')]]"
  using mapReadFiles_classifies [of no_file slash_join "''/srv''"
      "[''httpdocs/a.css'', ''css/a.css'', ''http://x/a.css'']"]
  by (simp add: no_file_def slash_join_def)

section \<open>The caller's tree after the call\<close>


lemma repr_frame:
  "repr st a r F \<Longrightarrow> (\<And>x. x \<in> F \<Longrightarrow> st' x = st x) \<Longrightarrow> repr st' a r F"
  and reprs_frame:
  "reprs st as rules G \<Longrightarrow> (\<And>x. x \<in> G \<Longrightarrow> st' x = st x) \<Longrightarrow> reprs st' as rules G"
proof (induction rule: repr_reprs.inducts)
  case (repr_Rule st a selectors decls)
  then show ?case by (simp add: repr_reprs.repr_Rule)
next
  case (repr_Other st a t c)
  then show ?case by (simp add: repr_reprs.repr_Other)
next
  case (repr_Media st a media as rules F)
  then show ?case by (simp add: repr_reprs.repr_Media)
next
  case (reprs_Nil st)
  then show ?case by (simp add: repr_reprs.reprs_Nil)
next
  case (reprs_Cons st a r F as rules G)
  then show ?case by (simp add: repr_reprs.reprs_Cons)
qed

lemma final_addr: "final st st' a v F \<Longrightarrow> a \<in> F"
  and finals_addrs: "finals st st' as vs G \<Longrightarrow> set as \<subseteq> G"
  by (induction rule: final_finals.inducts) auto



lemma final_frame_old:
  "final st st' a v F \<Longrightarrow> (\<And>x. x \<in> F \<Longrightarrow> st0 x = st x) \<Longrightarrow> final st0 st' a v F"
  and finals_frame_old:
  "finals st st' as vs G \<Longrightarrow> (\<And>x. x \<in> G \<Longrightarrow> st0 x = st x) \<Longrightarrow> finals st0 st' as vs G"
proof (induction rule: final_finals.inducts)
  case (final_Rule st a selectors decls st' selectors')
  then show ?case by (simp add: final_finals.final_Rule)
next
  case (final_Other st a t c st')
  then show ?case by (simp add: final_finals.final_Other)
next
  case (final_Media st a media as st' vs F)
  then show ?case by (simp add: final_finals.final_Media)
next
  case (finals_Nil st st')
  show ?case by (rule final_finals.finals_Nil)
next
  case (finals_Cons st st' a v F as vs G)
  then show ?case by (simp add: final_finals.finals_Cons)
qed

lemma kept_lengths:
  "list_all2 (\<lambda>b v. k b = Inr (p v)) as vs
     \<Longrightarrow> length (filter (\<lambda>b. k b = Inr True) as) = length (filter p vs)"
  by (induction rule: list_all2_induct) auto

lemma final_kept:
  "final st st' a v F \<Longrightarrow> kept_st st' a = Inr (rule_kept (survivors v))"
  and finals_kept:
  "finals st st' as vs G
     \<Longrightarrow> list_all2 (\<lambda>b v. kept_st st' b = Inr (rule_kept v)) as (map survivors vs)"
proof (induction rule: final_finals.inducts)
  case (final_Rule st a selectors decls st' selectors')
  then show ?case by (simp add: kept_st_def)
next
  case (final_Other st a t c st')
  then show ?case by (simp add: kept_st_def)
next
  case (final_Media st a media as st' vs F)
  from kept_lengths [OF final_Media.IH] final_Media.hyps(4)
  show ?case by (simp add: kept_st_def)
next
  case (finals_Nil st st')
  show ?case by simp
next
  case (finals_Cons st st' a v F as vs G)
  then show ?case by simp
qed

lemma final_survivors:
  "final st st' a v F \<Longrightarrow> \<exists>F'. F' \<subseteq> F \<and> repr st' a (survivors v) F'"
  and finals_survivors:
  "finals st st' as vs G \<Longrightarrow>
     \<exists>G'. G' \<subseteq> G
        \<and> reprs st' (filter (\<lambda>b. kept_st st' b = Inr True) as)
            (filter rule_kept (map survivors vs)) G'
        \<and> filter_exn (kept_st st') as = Inr (filter (\<lambda>b. kept_st st' b = Inr True) as)"
proof (induction rule: final_finals.inducts)
  case (final_Rule st a selectors decls st' selectors')
  from final_Rule(2) have "repr st' a (Rule selectors' decls) {a}"
    by (rule repr_reprs.repr_Rule)
  then show ?case by auto
next
  case (final_Other st a t c st')
  from final_Other(2) have "repr st' a (Other t c) {a}"
    by (rule repr_reprs.repr_Other)
  then show ?case by auto
next
  case (final_Media st a media as st' vs F)
  from final_Media.IH obtain G' where sub: "G' \<subseteq> F"
    and nested: "reprs st' (filter (\<lambda>b. kept_st st' b = Inr True) as)
                   (filter rule_kept (map survivors vs)) G'" by blast
  from sub final_Media.hyps(3) have "a \<notin> G'" by blast
  with final_Media.hyps(4) nested
  have "repr st' a (Media media (filter rule_kept (map survivors vs))) (insert a G')"
    by (intro repr_reprs.repr_Media)
  with sub show ?case by (intro exI [of _ "insert a G'"]) auto
next
  case (finals_Nil st st')
  show ?case by (auto intro: repr_reprs.reprs_Nil)
next
  case (finals_Cons st st' a v F as vs G)
  from finals_Cons.IH(1) obtain F' where subF: "F' \<subseteq> F"
    and head: "repr st' a (survivors v) F'" by blast
  from finals_Cons.IH(2) obtain G' where subG: "G' \<subseteq> G"
    and tail: "reprs st' (filter (\<lambda>b. kept_st st' b = Inr True) as)
                 (filter rule_kept (map survivors vs)) G'"
    and run: "filter_exn (kept_st st') as = Inr (filter (\<lambda>b. kept_st st' b = Inr True) as)"
    by blast
  have k: "kept_st st' a = Inr (rule_kept (survivors v))"
    by (rule final_kept [OF finals_Cons.hyps(1)])
  show ?case
  proof (cases "rule_kept (survivors v)")
    case True
    from subF subG finals_Cons.hyps(3) have "F' \<inter> G' = {}" by blast
    with head tail have "reprs st' (a # filter (\<lambda>b. kept_st st' b = Inr True) as)
        (survivors v # filter rule_kept (map survivors vs)) (F' \<union> G')"
      by (intro repr_reprs.reprs_Cons)
    with True k run subF subG
    show ?thesis by (intro exI [of _ "F' \<union> G'"]) auto
  next
    case False
    with tail k run subG show ?thesis by (intro exI [of _ G']) auto
  qed
qed



lemma visit_forEach:
  "forEach_rule doms ignore rs r =
     (case visit_rule doms ignore rs r of
        (Inl e, rs') \<Rightarrow> (Inl e, rs')
      | (Inr v, rs') \<Rightarrow> (Inr (survivors v), rs'))"
  and visits_forEach:
  "forEach_rules doms ignore rs rules =
     (case visit_rules doms ignore rs rules of
        (Inl e, rs') \<Rightarrow> (Inl e, rs')
      | (Inr vs, rs') \<Rightarrow> (Inr (map survivors vs), rs'))"
proof (induction doms ignore rs r and doms ignore rs rules rule: visit_rule_visit_rules.induct)
  case (1 doms ignore rs selectors decls)
  show ?case by (auto split: sum.splits prod.splits)
next
  case (2 doms ignore rs media rules)
  then show ?case by (auto split: sum.splits prod.splits)
next
  case (3 doms ignore rs t c)
  show ?case by simp
next
  case (4 doms ignore rs)
  show ?case by simp
next
  case (5 doms ignore rs r rules)
  obtain res ig1 where vr: "visit_rule doms ignore rs r = (res, ig1)"
    by (cases "visit_rule doms ignore rs r")
  show ?case
  proof (cases res)
    case (Inl e)
    with vr "5.IH"(1) show ?thesis by simp
  next
    case (Inr v)
    with vr "5.IH"(1) "5.IH"(2) [OF vr [symmetric, unfolded Inr] refl] show ?thesis
      by (auto split: sum.splits prod.splits)
  qed
qed





end
